theory Spec2Isabelle
  imports Complex_Main "HOL-Library.Sublist"
begin

section \<open>Shared vocabulary\<close>

text \<open>
  The backend is Python. Strings are \<^typ>\<open>string\<close>, Python's unbounded integers are
  \<^typ>\<open>int\<close>, and the wall-clock readings of \<^verbatim>\<open>time.time()\<close> and file
  modification times are \<^typ>\<open>real\<close>. \<^verbatim>\<open>int(x)\<close> on a number truncates toward zero.
  A character of a \<^typ>\<open>string\<close> is one of the 256 code points from 0 to 255.
\<close>

definition py_int :: "real \<Rightarrow> int" where
  "py_int x = (if 0 \<le> x then \<lfloor>x\<rfloor> else \<lceil>x\<rceil>)"

text \<open>\<^verbatim>\<open>os.getenv(name, default)\<close> over the process environment.\<close>

definition os_getenv :: "(string \<rightharpoonup> string) \<Rightarrow> string \<Rightarrow> string \<Rightarrow> string" where
  "os_getenv env name dflt = (case env name of None \<Rightarrow> dflt | Some v \<Rightarrow> v)"

text \<open>The environment in which no variable is set.\<close>

definition empty_env :: "string \<rightharpoonup> string" where
  "empty_env name = None"

datatype log_level = DEBUG | INFO | WARNING | ERROR

type_synonym log_record = "log_level \<times> string"


text \<open>
  \<^verbatim>\<open>str(n)\<close> for an integer: its decimal digits, with a minus sign when negative.
\<close>

definition digit_char :: "nat \<Rightarrow> char" where
  "digit_char d = char_of (48 + d)"

fun str_nat :: "nat \<Rightarrow> string" where
  "str_nat n = (if n < 10 then [digit_char n] else str_nat (n div 10) @ [digit_char (n mod 10)])"

declare str_nat.simps [simp del]

definition str_int :: "int \<Rightarrow> string" where
  "str_int i = (if i < 0 then CHR ''-'' # str_nat (nat (- i)) else str_nat (nat i))"

text \<open>
  \<^verbatim>\<open>str.strip()\<close> removes the characters for which \<^verbatim>\<open>str.isspace()\<close> holds from
  both ends; below code point 256 these are 9 to 13, 28 to 32, 133 and 160.
\<close>

definition is_space :: "char \<Rightarrow> bool" where
  "is_space c =
     (let n = (of_char c :: nat) in (9 \<le> n \<and> n \<le> 13) \<or> (28 \<le> n \<and> n \<le> 32) \<or> n = 133 \<or> n = 160)"

definition py_strip :: "string \<Rightarrow> string" where
  "py_strip s = rev (dropWhile is_space (rev (dropWhile is_space s)))"

text \<open>\<^verbatim>\<open>sep.join(parts)\<close>.\<close>

fun join_with :: "string \<Rightarrow> string list \<Rightarrow> string" where
  "join_with sep [] = []"
| "join_with sep [x] = x"
| "join_with sep (x # y # ys) = x @ sep @ join_with sep (y # ys)"

text \<open>
  JSON-like values: the bodies of responses and the result of \<^verbatim>\<open>json.loads\<close>.
  Python's \<^verbatim>\<open>bool\<close> is a subclass of \<^verbatim>\<open>int\<close>; \<open>JFloat\<close> holds a finite
  float, and the three non-finite floats have constructors of their own.
\<close>

datatype json =
    JNull
  | JBool bool
  | JInt int
  | JFloat real
  | JNaN
  | JInfinity bool
  | JStr string
  | JArr "json list"
  | JObj "(string \<times> json) list"

text \<open>An HTTP response: status, headers (set by name, a later value replacing an earlier one) and body.\<close>

record response =
  status_code :: nat
  headers :: "string \<rightharpoonup> string"
  content :: json

text \<open>
  The URL of a request by its components (\<^verbatim>\<open>request.url.scheme\<close>,
  \<^verbatim>\<open>.hostname\<close>, which is \<^verbatim>\<open>None\<close> when the URL has no host, and so on);
  \<^verbatim>\<open>str(url)\<close> puts them together again.
\<close>

record url =
  scheme :: string
  hostname :: "string option"
  netloc :: string
  path :: string
  query :: string


record request =
  req_url :: url
  req_headers :: "string \<rightharpoonup> string"
  client_host :: "string option"

definition header_get :: "request \<Rightarrow> string \<Rightarrow> string \<Rightarrow> string" where
  "header_get r name dflt = (case req_headers r name of None \<Rightarrow> dflt | Some v \<Rightarrow> v)"

section \<open>ErrorTaxonomy: \<^verbatim>\<open>exceptions.py\<close>\<close>

text \<open>
  The exception classes of the application. An instance carries the class it was built
  from (\<^verbatim>\<open>type(exc)\<close>), the internal message, the user message, the error code and
  the details dictionary. \<open>Subclass\<close> stands for a class derived from
  \<^verbatim>\<open>TOEFLAppException\<close> outside this module.
\<close>

datatype exception_class =
    TOEFLAppException
  | AuthenticationError
  | ProblemGenerationError
  | SpeechProcessingError
  | ScoringError
  | RateLimitExceededError
  | ExternalAPIError
  | ValidationError
  | Subclass string

record app_exception =
  exc_class :: exception_class
  message :: string
  user_message :: string
  error_code :: "string option"
  details :: "(string \<times> json) list"

text \<open>
  \<^verbatim>\<open>x or y\<close> on an optional string: \<^verbatim>\<open>None\<close> and the empty string are falsy.
\<close>

definition str_or :: "string option \<Rightarrow> string \<Rightarrow> string" where
  "str_or x y = (case x of None \<Rightarrow> y | Some s \<Rightarrow> if s = [] then y else s)"

definition toefl_app_exception ::
    "exception_class \<Rightarrow> string \<Rightarrow> string option \<Rightarrow> string option \<Rightarrow> (string \<times> json) list option
       \<Rightarrow> app_exception" where
  "toefl_app_exception cls msg user_msg code dets =
     \<lparr>exc_class = cls, message = msg, user_message = str_or user_msg msg, error_code = code,
      details = (case dets of None \<Rightarrow> [] | Some d \<Rightarrow> d)\<rparr>"

text \<open>
  The default user messages are Japanese sentences in the source; they are written here
  by English glosses, and nothing below depends on their wording.
\<close>

definition authentication_error :: "string \<Rightarrow> string option \<Rightarrow> app_exception" where
  "authentication_error msg user_msg =
     toefl_app_exception AuthenticationError msg
       (Some (str_or user_msg ''(ja) Login failed. Please try again.''))
       (Some ''AUTH_ERROR'') None"


definition speech_processing_error :: "string \<Rightarrow> string option \<Rightarrow> app_exception" where
  "speech_processing_error msg user_msg =
     toefl_app_exception SpeechProcessingError msg
       (Some (str_or user_msg ''(ja) Transcription failed. Please record again.''))
       (Some ''SPEECH_PROCESSING_ERROR'') None"

definition scoring_error :: "string \<Rightarrow> string option \<Rightarrow> app_exception" where
  "scoring_error msg user_msg =
     toefl_app_exception ScoringError msg
       (Some (str_or user_msg ''(ja) Scoring failed. Please try again.''))
       (Some ''SCORING_ERROR'') None"

definition rate_limit_exceeded_error :: "string \<Rightarrow> string option \<Rightarrow> app_exception" where
  "rate_limit_exceeded_error msg user_msg =
     toefl_app_exception RateLimitExceededError msg
       (Some (str_or user_msg ''(ja) Request limit exceeded. Please wait a while and try again.''))
       (Some ''RATE_LIMIT_EXCEEDED'') None"

definition external_api_error :: "string \<Rightarrow> string \<Rightarrow> string option \<Rightarrow> app_exception" where
  "external_api_error service msg user_msg =
     toefl_app_exception ExternalAPIError (service @ '' API Error: '' @ msg)
       (Some (str_or user_msg ''(ja) Communication with the external service failed. Please wait a while and try again.''))
       (Some ''EXTERNAL_API_ERROR'') (Some [(''service'', JStr service)])"

definition validation_error :: "string \<Rightarrow> string option \<Rightarrow> string option \<Rightarrow> app_exception" where
  "validation_error msg user_msg field =
     toefl_app_exception ValidationError msg
       (Some (str_or user_msg ''(ja) The input data is not valid.''))
       (Some ''VALIDATION_ERROR'')
       (Some (case field of
                None \<Rightarrow> []
              | Some f \<Rightarrow> if f = [] then [] else [(''field'', JStr f)]))"

section \<open>AdmissionController: \<^verbatim>\<open>middleware/rate_limiter.py\<close>\<close>

text \<open>
  The middleware object: the configured capacity, the window size (set to 60 by the
  constructor) and the history, a \<^verbatim>\<open>defaultdict(list)\<close> from identities to the
  timestamps of their admitted requests.
\<close>

record rate_limiter =
  requests_per_minute :: int
  window_size :: int
  request_history :: "string \<Rightarrow> real list"

definition new_rate_limiter :: "int \<Rightarrow> rate_limiter" where
  "new_rate_limiter rpm =
     \<lparr>requests_per_minute = rpm, window_size = 60, request_history = (\<lambda>k. [])\<rparr>"

text \<open>The constructor's parameter \<^verbatim>\<open>requests_per_minute: int = 100\<close>, given or left out.\<close>

definition init_rate_limiter :: "int option \<Rightarrow> rate_limiter" where
  "init_rate_limiter rpm = new_rate_limiter (case rpm of None \<Rightarrow> 100 | Some c \<Rightarrow> c)"

definition get_user_identifier :: "request \<Rightarrow> string" where
  "get_user_identifier r =
     (let auth_header = header_get r ''Authorization'' [] in
      if auth_header \<noteq> [] \<and> prefix ''Bearer '' auth_header then drop 7 auth_header
      else
        (let forwarded_for = header_get r ''X-Forwarded-For'' [];
             client_ip =
               (if forwarded_for \<noteq> [] then py_strip (takeWhile (\<lambda>c. c \<noteq> CHR '','') forwarded_for)
                else (case client_host r of None \<Rightarrow> ''unknown'' | Some h \<Rightarrow> h))
         in ''ip:'' @ client_ip))"

definition clean_old_requests :: "rate_limiter \<Rightarrow> string \<Rightarrow> real \<Rightarrow> rate_limiter" where
  "clean_old_requests self user_id current_time =
     (let cutoff_time = current_time - of_int (window_size self) in
      self\<lparr>request_history :=
             (request_history self)
               (user_id := filter (\<lambda>ts. ts > cutoff_time) (request_history self user_id))\<rparr>)"

definition is_rate_limited :: "rate_limiter \<Rightarrow> string \<Rightarrow> real \<Rightarrow> (bool \<times> int) \<times> rate_limiter" where
  "is_rate_limited self user_id current_time =
     (let self' = clean_old_requests self user_id current_time;
          request_count = int (length (request_history self' user_id));
          is_limited = (request_count \<ge> requests_per_minute self');
          remaining = max 0 (requests_per_minute self' - request_count)
      in ((is_limited, remaining), self'))"

text \<open>
  The three \<^verbatim>\<open>return\<close> statements of \<^verbatim>\<open>dispatch\<close>, each with the response
  it returns: the bypass for the fixed paths, the 429 response, and the downstream
  response with the rate-limit headers set.
\<close>

datatype admission = Bypassed response | Rejected response | Allowed response

fun response_of :: "admission \<Rightarrow> response" where
  "response_of (Bypassed r) = r"
| "response_of (Rejected r) = r"
| "response_of (Allowed r) = r"

definition bypass_paths :: "string list" where
  "bypass_paths = [''/'', ''/health'', ''/docs'', ''/openapi.json'']"

text \<open>
  The Japanese text of the \<^verbatim>\<open>detail\<close> field is written here by an English gloss;
  nothing below depends on its wording.
\<close>

definition rate_limit_detail :: string where
  "rate_limit_detail = ''(ja) Request limit exceeded. Please wait a while and try again.''"

definition set_header :: "response \<Rightarrow> string \<Rightarrow> string \<Rightarrow> response" where
  "set_header resp name v = resp\<lparr>headers := (headers resp)(name \<mapsto> v)\<rparr>"

text \<open>The \<^verbatim>\<open>JSONResponse\<close> that \<^verbatim>\<open>dispatch\<close> builds for a limited identity.\<close>

definition too_many_requests :: "rate_limiter \<Rightarrow> real \<Rightarrow> response" where
  "too_many_requests self current_time =
     \<lparr>status_code = 429,
      headers =
        [''Retry-After'' \<mapsto> str_int (window_size self),
         ''X-RateLimit-Limit'' \<mapsto> str_int (requests_per_minute self),
         ''X-RateLimit-Remaining'' \<mapsto> ''0'',
         ''X-RateLimit-Reset'' \<mapsto> str_int (py_int (current_time + of_int (window_size self)))],
      content =
        JObj [(''detail'', JStr rate_limit_detail),
              (''error'', JStr ''rate_limit_exceeded''),
              (''retry_after'', JInt (window_size self))]\<rparr>"

definition rate_limit_dispatch ::
    "(request \<Rightarrow> response) \<Rightarrow> real \<Rightarrow> rate_limiter \<Rightarrow> request \<Rightarrow> admission \<times> rate_limiter" where
  "rate_limit_dispatch call_next now self r =
     (if path (req_url r) \<in> set bypass_paths then (Bypassed (call_next r), self)
      else
        (let user_id = get_user_identifier r;
             current_time = now;
             ((is_limited, remaining), self1) = is_rate_limited self user_id current_time
         in if is_limited then (Rejected (too_many_requests self1 current_time), self1)
            else
              (let self2 = self1\<lparr>request_history :=
                                  (request_history self1)
                                    (user_id := request_history self1 user_id @ [current_time])\<rparr>;
                   resp = call_next r;
                   resp = set_header resp ''X-RateLimit-Limit'' (str_int (requests_per_minute self2));
                   resp = set_header resp ''X-RateLimit-Remaining'' (str_int (remaining - 1));
                   resp = set_header resp ''X-RateLimit-Reset''
                            (str_int (py_int (current_time + of_int (window_size self2))))
               in (Allowed resp, self2))))"

text \<open>A sequential run: the requests are dispatched one after the other, each at its own time.\<close>

fun rate_limit_run ::
    "(request \<Rightarrow> response) \<Rightarrow> rate_limiter \<Rightarrow> (real \<times> request) list \<Rightarrow> admission list \<times> rate_limiter" where
  "rate_limit_run call_next self [] = ([], self)"
| "rate_limit_run call_next self ((t, r) # rs) =
     (let (a, self1) = rate_limit_dispatch call_next t self r;
          (as, self2) = rate_limit_run call_next self1 rs
      in (a # as, self2))"

text \<open>
  A run of one identity inside one window: every request is for identity \<open>k\<close>, on a path
  that is rate-limited, at a time in the 60 seconds from \<open>s\<close> on (\<open>s\<close> included,
  \<open>s + 60\<close> not).
\<close>

definition in_window :: "string \<Rightarrow> real \<Rightarrow> (real \<times> request) list \<Rightarrow> bool" where
  "in_window k s rs =
     (\<forall>(t, r) \<in> set rs.
        path (req_url r) \<notin> set bypass_paths \<and> get_user_identifier r = k \<and> s \<le> t \<and> t < s + 60)"

fun is_allowed :: "admission \<Rightarrow> bool" where
  "is_allowed (Allowed r) = True"
| "is_allowed _ = False"

text \<open>
  The admission rule as the specification words it: the timestamps older than
  \<open>t - 60\<close> are discarded and the request is rejected when at least \<open>C\<close> remain; the
  reset header is \<open>t + 60\<close>.
\<close>

definition spec_remaining :: "real list \<Rightarrow> real \<Rightarrow> real list" where
  "spec_remaining h t = filter (\<lambda>ts. \<not> ts < t - 60) h"

definition spec_rejects :: "int \<Rightarrow> real list \<Rightarrow> real \<Rightarrow> bool" where
  "spec_rejects C h t = (int (length (spec_remaining h t)) \<ge> C)"

definition spec_reset :: "real \<Rightarrow> real" where
  "spec_reset t = t + 60"

subsection \<open>Concrete requests\<close>

definition ok_response :: response where
  "ok_response = \<lparr>status_code = 200, headers = Map.empty, content = JObj [(''message'', JStr ''success'')]\<rparr>"

definition always_ok :: "request \<Rightarrow> response" where
  "always_ok r = ok_response"

definition token_headers :: "string \<rightharpoonup> string" where
  "token_headers = [''Authorization'' \<mapsto> ''Bearer test_token_123'']"

definition test_request :: request where
  "test_request =
     \<lparr>req_url = \<lparr>scheme = ''http'', hostname = Some ''testserver'', netloc = ''testserver'',
                  path = ''/test'', query = []\<rparr>,
      req_headers = token_headers, client_host = Some ''testclient''\<rparr>"

definition limiter_with :: "int \<Rightarrow> real list \<Rightarrow> rate_limiter" where
  "limiter_with rpm h =
     (new_rate_limiter rpm)
       \<lparr>request_history := (request_history (new_rate_limiter rpm))(''test_token_123'' := h)\<rparr>"

definition three_requests :: "(real \<times> request) list" where
  "three_requests = [(1/2, test_request), (1, test_request), (59, test_request)]"

section \<open>AdmissionController: \<^verbatim>\<open>middleware/https_redirect.py\<close>\<close>



subsection \<open>Concrete requests\<close>






section \<open>ResilientClient: \<^verbatim>\<open>OpenAIClient.call_gpt4\<close>\<close>

text \<open>
  What the provider call inside the \<^verbatim>\<open>try\<close> block of \<^verbatim>\<open>call_gpt4\<close> can raise,
  named by the first \<^verbatim>\<open>except\<close> clause that catches it; the string is
  \<^verbatim>\<open>str(e)\<close>. \<open>OtherException\<close> is the last clause, \<^verbatim>\<open>except Exception\<close>.
\<close>

datatype provider_error =
    RateLimitError string
  | APITimeoutError string
  | APIError string
  | OpenAIError string
  | OtherException string


text \<open>
  One execution of the body of \<^verbatim>\<open>call_gpt4\<close>, given what the provider call does:
  the text is returned, and every exception is caught and replaced by an
  \<^verbatim>\<open>ExternalAPIError\<close> for the service \<^verbatim>\<open>OpenAI\<close>.
\<close>

fun call_gpt4_body :: "provider_error + string \<Rightarrow> app_exception + string" where
  "call_gpt4_body (Inr result) = Inr result"
| "call_gpt4_body (Inl (RateLimitError e)) =
     Inl (external_api_error ''OpenAI'' ''Rate limit exceeded. Please try again later.'' None)"
| "call_gpt4_body (Inl (APITimeoutError e)) =
     Inl (external_api_error ''OpenAI'' ''Request timed out. Please try again.'' None)"
| "call_gpt4_body (Inl (APIError e)) =
     Inl (external_api_error ''OpenAI'' (''API error: '' @ e) None)"
| "call_gpt4_body (Inl (OpenAIError e)) =
     Inl (external_api_error ''OpenAI'' (''Unexpected error: '' @ e) None)"
| "call_gpt4_body (Inl (OtherException e)) =
     Inl (external_api_error ''OpenAI'' (''Unexpected error: '' @ e) None)"

text \<open>
  The exception that leaves a decorated function is one of the provider's or one of the
  application's. The decorator's \<^verbatim>\<open>retry_if_exception_type((RateLimitError,
  APITimeoutError, APIError))\<close> holds for the three provider classes it lists and for
  nothing else; the application's \<^verbatim>\<open>ExternalAPIError\<close> derives from
  \<^verbatim>\<open>TOEFLAppException\<close> and is none of them.
\<close>

datatype raised = Provider provider_error | App app_exception

fun retry_if_exception_type :: "raised \<Rightarrow> bool" where
  "retry_if_exception_type (Provider (RateLimitError e)) = True"
| "retry_if_exception_type (Provider (APITimeoutError e)) = True"
| "retry_if_exception_type (Provider (APIError e)) = True"
| "retry_if_exception_type (Provider (OpenAIError e)) = False"
| "retry_if_exception_type (Provider (OtherException e)) = False"
| "retry_if_exception_type (App e) = False"

text \<open>
  The retry loop of the decorator, \<^verbatim>\<open>stop=stop_after_attempt(n)\<close> and
  \<^verbatim>\<open>reraise=True\<close>: the function is called for attempt 1, 2, ...; a result is
  returned; an exception for which the retry predicate fails is raised at once; after
  attempt \<open>n\<close> the last exception is raised; otherwise the next attempt follows (after a
  wait, which is not part of the model). The result comes with the number of attempts made.
\<close>

function retrying ::
    "nat \<Rightarrow> (raised \<Rightarrow> bool) \<Rightarrow> (nat \<Rightarrow> raised + 'a) \<Rightarrow> nat \<Rightarrow> (raised + 'a) \<times> nat" where
  "retrying stop_after retry_on f attempt_number =
     (case f attempt_number of
        Inr v \<Rightarrow> (Inr v, attempt_number)
      | Inl e \<Rightarrow>
          if \<not> retry_on e then (Inl e, attempt_number)
          else if attempt_number \<ge> stop_after then (Inl e, attempt_number)
          else retrying stop_after retry_on f (Suc attempt_number))"
  by pat_completeness auto
termination
  by (relation "measure (\<lambda>(stop_after, retry_on, f, attempt_number). stop_after - attempt_number)") auto

declare retrying.simps [simp del]

text \<open>
  The decorated \<^verbatim>\<open>call_gpt4\<close>. \<open>provider n\<close> is what the provider call does on
  attempt \<open>n\<close>.
\<close>

definition raise_app :: "app_exception + 'a \<Rightarrow> raised + 'a" where
  "raise_app r = (case r of Inl e \<Rightarrow> Inl (App e) | Inr v \<Rightarrow> Inr v)"

definition raise_provider :: "provider_error + 'a \<Rightarrow> raised + 'a" where
  "raise_provider r = (case r of Inl e \<Rightarrow> Inl (Provider e) | Inr v \<Rightarrow> Inr v)"

definition call_gpt4 :: "(nat \<Rightarrow> provider_error + string) \<Rightarrow> (raised + string) \<times> nat" where
  "call_gpt4 provider =
     retrying 3 retry_if_exception_type (\<lambda>n. raise_app (call_gpt4_body (provider n))) 1"

subsection \<open>Concrete providers\<close>

fun throttled_twice :: "nat \<Rightarrow> provider_error + string" where
  "throttled_twice n =
     (if n \<le> 2 then Inl (RateLimitError ''Error code: 429'') else Inr ''generated text'')"

fun always_throttled :: "nat \<Rightarrow> provider_error + string" where
  "always_throttled n = Inl (RateLimitError ''Error code: 429'')"

section \<open>ErrorTaxonomy: \<^verbatim>\<open>middleware/error_handler.py\<close>\<close>

record error_response =
  er_error_code :: string
  er_message :: string
  er_user_message :: string
  er_details :: "(string \<times> json) list"
  er_status_code :: nat

definition to_dict :: "error_response \<Rightarrow> json" where
  "to_dict self =
     JObj [(''error'',
            JObj [(''code'', JStr (er_error_code self)),
                  (''message'', JStr (er_message self)),
                  (''user_message'', JStr (er_user_message self)),
                  (''details'', JObj (er_details self))]),
           (''detail'', JStr (er_message self))]"

text \<open>\<^verbatim>\<open>JSONResponse(status_code, content)\<close>.\<close>

definition json_response :: "nat \<Rightarrow> json \<Rightarrow> response" where
  "json_response code body = \<lparr>status_code = code, headers = Map.empty, content = body\<rparr>"

text \<open>
  The dictionary \<^verbatim>\<open>status_code_map\<close> of \<^verbatim>\<open>toefl_exception_handler\<close>, looked up
  with the exact class of the exception.
\<close>

fun status_code_map :: "exception_class \<Rightarrow> nat option" where
  "status_code_map AuthenticationError = Some 401"
| "status_code_map RateLimitExceededError = Some 429"
| "status_code_map ExternalAPIError = Some 503"
| "status_code_map ValidationError = Some 400"
| "status_code_map ProblemGenerationError = Some 500"
| "status_code_map SpeechProcessingError = Some 500"
| "status_code_map ScoringError = Some 500"
| "status_code_map TOEFLAppException = None"
| "status_code_map (Subclass name) = None"

text \<open>
  Each handler returns its response and the log line it writes before building it
  (the debug lines that repeat the payload, and the rendering of the error list in the
  log line of the validation handler, are left out). \<^verbatim>\<open>str(None)\<close> is
  \<^verbatim>\<open>None\<close>.
\<close>

definition str_opt :: "string option \<Rightarrow> string" where
  "str_opt x = (case x of None \<Rightarrow> ''None'' | Some s \<Rightarrow> s)"

definition toefl_exception_handler :: "app_exception \<Rightarrow> response \<times> log_record list" where
  "toefl_exception_handler exc =
     (let status = (case status_code_map (exc_class exc) of None \<Rightarrow> 500 | Some c \<Rightarrow> c);
          lg = [(ERROR, ''Application error: '' @ str_opt (error_code exc) @ '' - '' @ message exc)];
          err = \<lparr>er_error_code = str_or (error_code exc) ''INTERNAL_ERROR'',
                 er_message = message exc,
                 er_user_message = user_message exc,
                 er_details = details exc,
                 er_status_code = status\<rparr>
      in (json_response status (to_dict err), lg))"

text \<open>
  The user messages of \<^verbatim>\<open>http_exception_handler\<close> are Japanese sentences in the
  source, written here by English glosses.
\<close>

definition http_user_message :: "nat \<Rightarrow> string" where
  "http_user_message code =
     (if code = 400 then ''(ja) The request is not valid.''
      else if code = 401 then ''(ja) Authentication is required.''
      else if code = 403 then ''(ja) Access was denied.''
      else if code = 404 then ''(ja) The resource was not found.''
      else if code = 429 then ''(ja) Request limit exceeded. Please wait a while and try again.''
      else if code = 500 then ''(ja) A server error occurred.''
      else if code = 503 then ''(ja) The service is temporarily unavailable.''
      else ''(ja) An error occurred.'')"

definition http_exception_handler :: "nat \<Rightarrow> string \<Rightarrow> response \<times> log_record list" where
  "http_exception_handler exc_status exc_detail =
     (let lg = [(WARNING, ''HTTP error: '' @ str_nat exc_status @ '' - '' @ exc_detail)];
          err = \<lparr>er_error_code = ''HTTP_'' @ str_nat exc_status,
                 er_message = exc_detail,
                 er_user_message = http_user_message exc_status,
                 er_details = [],
                 er_status_code = exc_status\<rparr>
      in (json_response exc_status (to_dict err), lg))"

text \<open>
  A Pydantic validation error item: its location (each part already turned into a
  string), its message and its type.
\<close>

record validation_item =
  loc :: "string list"
  msg :: string
  item_type :: string

definition validation_exception_handler :: "validation_item list \<Rightarrow> response \<times> log_record list" where
  "validation_exception_handler exc_errors =
     (let errors = map (\<lambda>error. JObj [(''field'', JStr (join_with ''.'' (loc error))),
                                       (''message'', JStr (msg error)),
                                       (''type'', JStr (item_type error))]) exc_errors;
          lg = [(WARNING, ''Validation error'')];
          err = \<lparr>er_error_code = ''VALIDATION_ERROR'',
                 er_message = ''Request validation failed'',
                 er_user_message = ''(ja) The input data is not valid. Please check what you entered.'',
                 er_details = [(''validation_errors'', JArr errors)],
                 er_status_code = 422\<rparr>
      in (json_response 422 (to_dict err), lg))"

text \<open>
  \<^verbatim>\<open>generic_exception_handler\<close> sees the name of the exception's type and the text
  \<^verbatim>\<open>str(exc)\<close>.
\<close>

definition generic_user_message :: string where
  "generic_user_message = ''(ja) An unexpected error occurred. Please wait a while and try again.''"

definition generic_exception_handler :: "string \<Rightarrow> string \<Rightarrow> response \<times> log_record list" where
  "generic_exception_handler type_name exc_text =
     (let lg = [(ERROR, ''Unexpected error: '' @ exc_text)];
          err = \<lparr>er_error_code = ''INTERNAL_ERROR'',
                 er_message = ''Internal server error: '' @ type_name,
                 er_user_message = generic_user_message,
                 er_details = [],
                 er_status_code = 500\<rparr>
      in (json_response 500 (to_dict err), lg))"

text \<open>
  The failures that reach the boundary, and the handler that \<^verbatim>\<open>main.py\<close> registers
  for each: \<^verbatim>\<open>TOEFLAppException\<close> and its subclasses, Starlette's
  \<^verbatim>\<open>HTTPException\<close>, \<^verbatim>\<open>RequestValidationError\<close>, and every other exception.
\<close>

datatype failure =
    AppFailure app_exception
  | HTTPFailure nat string
  | RequestValidationFailure "validation_item list"
  | Unexpected string string

fun boundary_handler :: "failure \<Rightarrow> response \<times> log_record list" where
  "boundary_handler (AppFailure exc) = toefl_exception_handler exc"
| "boundary_handler (HTTPFailure code detail) = http_exception_handler code detail"
| "boundary_handler (RequestValidationFailure errors) = validation_exception_handler errors"
| "boundary_handler (Unexpected type_name exc_text) = generic_exception_handler type_name exc_text"

text \<open>The strings and numbers that a body transmits, keys left out.\<close>

fun json_strings :: "json \<Rightarrow> string list" where
  "json_strings (JStr s) = [s]"
| "json_strings (JArr xs) = concat (map json_strings xs)"
| "json_strings (JObj kvs) = concat (map (\<lambda>kv. json_strings (snd kv)) kvs)"
| "json_strings JNull = []"
| "json_strings (JBool b) = []"
| "json_strings (JInt i) = []"
| "json_strings (JFloat x) = []"
| "json_strings JNaN = []"
| "json_strings (JInfinity b) = []"

subsection \<open>A concrete failure\<close>

definition refused :: app_exception where
  "refused = scoring_error ''Failed to score response: connection to db-03 refused'' None"

section \<open>ResponseSanitizer: \<^verbatim>\<open>ScoringService._validate_score\<close>\<close>








section \<open>ResponseSanitizer: \<^verbatim>\<open>OpenAIClient._clean_json_response\<close>\<close>

subsection \<open>Python string operations\<close>








subsection \<open>The function\<close>


subsection \<open>\<^verbatim>\<open>generate_task4_problem\<close> after the model has answered\<close>




subsection \<open>The extraction as a sequence of steps\<close>







subsection \<open>Concrete texts\<close>





section \<open>CleanupScheduler: \<^verbatim>\<open>utils/audio_cleanup.py\<close>\<close>

subsection \<open>The file system the cleanup code talks to\<close>

text \<open>
  A file system is a finite table from path strings to nodes, together with the faults
  that \<^verbatim>\<open>unlink\<close> raises on a path (permission denied, I/O error). Lookups take
  the first entry of a path and removal drops every entry of it, so the table behaves as a map.
  \<^verbatim>\<open>Path.exists()\<close> and \<^verbatim>\<open>Path.is_file()\<close> answer with a boolean.
\<close>

datatype node_kind = RegularFile | Directory | Special

record node =
  kind :: node_kind
  st_mtime :: real

datatype os_exception =
    FileNotFoundError string
  | PermissionError string
  | IsADirectoryError string
  | OSError string

fun exception_text :: "os_exception \<Rightarrow> string" where
  "exception_text (FileNotFoundError s) = s"
| "exception_text (PermissionError s) = s"
| "exception_text (IsADirectoryError s) = s"
| "exception_text (OSError s) = s"

record filesystem =
  nodes :: "(string \<times> node) list"
  unlink_fault :: "string \<Rightarrow> os_exception option"

definition lookup_node :: "filesystem \<Rightarrow> string \<Rightarrow> node option" where
  "lookup_node fs p = map_of (nodes fs) p"

definition path_exists :: "filesystem \<Rightarrow> string \<Rightarrow> bool" where
  "path_exists fs p = (lookup_node fs p \<noteq> None)"

definition path_is_file :: "filesystem \<Rightarrow> string \<Rightarrow> bool" where
  "path_is_file fs p = (case lookup_node fs p of None \<Rightarrow> False | Some n \<Rightarrow> kind n = RegularFile)"

definition path_is_dir :: "filesystem \<Rightarrow> string \<Rightarrow> bool" where
  "path_is_dir fs p = (case lookup_node fs p of None \<Rightarrow> False | Some n \<Rightarrow> kind n = Directory)"

definition path_stat :: "filesystem \<Rightarrow> string \<Rightarrow> os_exception + node" where
  "path_stat fs p =
     (case lookup_node fs p of
        None \<Rightarrow> Inl (FileNotFoundError ''No such file or directory'')
      | Some n \<Rightarrow> Inr n)"

definition remove_entry :: "filesystem \<Rightarrow> string \<Rightarrow> filesystem" where
  "remove_entry fs p = fs\<lparr>nodes := filter (\<lambda>e. fst e \<noteq> p) (nodes fs)\<rparr>"

definition path_unlink :: "filesystem \<Rightarrow> string \<Rightarrow> os_exception + filesystem" where
  "path_unlink fs p =
     (case lookup_node fs p of
        None \<Rightarrow> Inl (FileNotFoundError ''No such file or directory'')
      | Some n \<Rightarrow>
          (case unlink_fault fs p of
             Some e \<Rightarrow> Inl e
           | None \<Rightarrow>
               if kind n = Directory then Inl (IsADirectoryError ''Is a directory'')
               else Inr (remove_entry fs p)))"

subsection \<open>\<^verbatim>\<open>cleanup_audio_file\<close>\<close>

text \<open>
  The body of the \<^verbatim>\<open>try\<close> block: its result is the returned boolean or the
  exception that escapes the block, with the file system and the log lines written so far.
\<close>

definition cleanup_audio_file_try ::
    "filesystem \<Rightarrow> string \<Rightarrow> (os_exception + bool) \<times> filesystem \<times> log_record list" where
  "cleanup_audio_file_try fs file_path =
     (if file_path = [] then
        (Inr False, fs, [(WARNING, ''cleanup_audio_file called with empty file_path'')])
      else if \<not> path_exists fs file_path then
        (Inr True, fs, [(INFO, ''Audio file does not exist (already deleted?): '' @ file_path)])
      else if \<not> path_is_file fs file_path then
        (Inr False, fs, [(WARNING, ''Path is not a file: '' @ file_path)])
      else
        (case path_unlink fs file_path of
           Inl e \<Rightarrow> (Inl e, fs, [])
         | Inr fs' \<Rightarrow>
             (Inr True, fs', [(INFO, ''Successfully deleted audio file: '' @ file_path)])))"

text \<open>
  The whole function: the two \<^verbatim>\<open>except\<close> clauses turn every escaping exception
  into the result \<^verbatim>\<open>False\<close> and an error log line. The result keeps the sum type,
  so that "does not raise" is a statement about the value.
\<close>

definition cleanup_audio_file ::
    "filesystem \<Rightarrow> string \<Rightarrow> (os_exception + bool) \<times> filesystem \<times> log_record list" where
  "cleanup_audio_file fs file_path =
     (case cleanup_audio_file_try fs file_path of
        (Inl (PermissionError s), fs', lg) \<Rightarrow>
          (Inr False, fs',
           lg @ [(ERROR, ''Permission denied when deleting audio file '' @ file_path @ '': '' @ s)])
      | (Inl e, fs', lg) \<Rightarrow>
          (Inr False, fs',
           lg @ [(ERROR, ''Error deleting audio file '' @ file_path @ '': '' @ exception_text e)])
      | (Inr b, fs', lg) \<Rightarrow> (Inr b, fs', lg))"

subsection \<open>\<^verbatim>\<open>cleanup_old_audio_files\<close>\<close>

text \<open>
  \<^verbatim>\<open>Path(dir) / name\<close> and the pattern \<^verbatim>\<open>lecture_*.mp3\<close> of
  \<^verbatim>\<open>storage_path.glob\<close>: the star matches any run of characters, also the empty one,
  so a name matches when it starts with \<^verbatim>\<open>lecture_\<close> and what follows that prefix
  ends with \<^verbatim>\<open>.mp3\<close>. The glob looks only at the entries directly inside the directory.
\<close>

definition path_join :: "string \<Rightarrow> string \<Rightarrow> string" where
  "path_join d name = d @ ''/'' @ name"

definition matches_lecture_mp3 :: "string \<Rightarrow> bool" where
  "matches_lecture_mp3 name =
     (prefix ''lecture_'' name \<and> suffix ''.mp3'' (drop (length ''lecture_'') name))"

definition child_name :: "string \<Rightarrow> string \<Rightarrow> string option" where
  "child_name d p =
     (if prefix (d @ ''/'') p \<and> drop (length d + 1) p \<noteq> [] \<and> CHR ''/'' \<notin> set (drop (length d + 1) p)
      then Some (drop (length d + 1) p) else None)"

definition lecture_mp3_in :: "string \<Rightarrow> string \<Rightarrow> bool" where
  "lecture_mp3_in d p =
     (case child_name d p of None \<Rightarrow> False | Some name \<Rightarrow> matches_lecture_mp3 name)"

definition glob_lecture_mp3 :: "filesystem \<Rightarrow> string \<Rightarrow> string list" where
  "glob_lecture_mp3 fs d =
     (if path_is_dir fs d then remdups (filter (lecture_mp3_in d) (map fst (nodes fs))) else [])"

text \<open>
  One turn of the \<^verbatim>\<open>for\<close> loop, with its own \<^verbatim>\<open>try\<close>: when
  \<^verbatim>\<open>stat\<close> raises, the loop continues with the next file. The state is the
  file system and the count of deleted files; the loop's log lines are left out.
\<close>

definition sweep_step :: "real \<Rightarrow> filesystem \<times> nat \<Rightarrow> string \<Rightarrow> filesystem \<times> nat" where
  "sweep_step cutoff_time st audio_file =
     (case st of (fs, deleted_count) \<Rightarrow>
        (case path_stat fs audio_file of
           Inl e \<Rightarrow> (fs, deleted_count)
         | Inr n \<Rightarrow>
             if st_mtime n < cutoff_time then
               (case cleanup_audio_file fs audio_file of
                  (Inr True, fs', lg) \<Rightarrow> (fs', deleted_count + 1)
                | (_, fs', lg) \<Rightarrow> (fs', deleted_count))
             else (fs, deleted_count)))"

text \<open>
  The sweep. \<^verbatim>\<open>now\<close> is the reading of \<^verbatim>\<open>time.time()\<close>; the storage path
  defaults to the environment variable \<^verbatim>\<open>AUDIO_STORAGE_PATH\<close>. The glob is read
  before the first deletion. No file-system call of the model raises outside the loop's
  own \<^verbatim>\<open>try\<close>, so the outer handler (which returns 0) has no branch here.
\<close>

definition storage_path_of :: "(string \<rightharpoonup> string) \<Rightarrow> string option \<Rightarrow> string" where
  "storage_path_of env audio_storage_path =
     (case audio_storage_path of
        None \<Rightarrow> os_getenv env ''AUDIO_STORAGE_PATH'' ''backend/audio_files''
      | Some p \<Rightarrow> p)"

definition cleanup_old_audio_files ::
    "(string \<rightharpoonup> string) \<Rightarrow> real \<Rightarrow> filesystem \<Rightarrow> string option \<Rightarrow> int \<Rightarrow> nat \<times> filesystem" where
  "cleanup_old_audio_files env now fs audio_storage_path max_age_hours =
     (let storage_path = storage_path_of env audio_storage_path
      in if \<not> path_exists fs storage_path then (0, fs)
         else
           (let cutoff_time = now - of_int (max_age_hours * 3600);
                (fs', deleted_count) =
                   foldl (sweep_step cutoff_time) (fs, 0) (glob_lecture_mp3 fs storage_path)
            in (deleted_count, fs')))"

subsection \<open>Concrete file systems\<close>

definition no_faults :: "string \<Rightarrow> os_exception option" where
  "no_faults p = None"


definition denied :: "string \<Rightarrow> os_exception option" where
  "denied p = Some (PermissionError ''Permission denied'')"

definition sample_nodes :: "(string \<times> node) list" where
  "sample_nodes =
     [(''audio'', \<lparr>kind = Directory, st_mtime = 0\<rparr>),
      (''audio/lecture_a.mp3'', \<lparr>kind = RegularFile, st_mtime = 10\<rparr>),
      (''audio/lecture_b.mp3'', \<lparr>kind = RegularFile, st_mtime = 500\<rparr>),
      (''audio/notes.txt'', \<lparr>kind = RegularFile, st_mtime = 10\<rparr>)]"

definition sample_filesystem :: filesystem where
  "sample_filesystem = \<lparr>nodes = sample_nodes, unlink_fault = no_faults\<rparr>"


section \<open>Properties of the rate limiter\<close>

lemma rate_limit_dispatch_limited:
  assumes "path (req_url r) \<notin> set bypass_paths"
    and "int (length (filter (\<lambda>ts. ts > t - of_int (window_size self))
                  (request_history self (get_user_identifier r)))) \<ge> requests_per_minute self"
  shows "rate_limit_dispatch call_next t self r =
     (Rejected (too_many_requests self t),
      self\<lparr>request_history :=
             (request_history self)
               (get_user_identifier r :=
                  filter (\<lambda>ts. ts > t - of_int (window_size self))
                    (request_history self (get_user_identifier r)))\<rparr>)"
  using assms
  by (simp add: rate_limit_dispatch_def is_rate_limited_def clean_old_requests_def Let_def
      too_many_requests_def)

lemma rate_limit_dispatch_allowed:
  assumes "path (req_url r) \<notin> set bypass_paths"
    and "int (length (filter (\<lambda>ts. ts > t - of_int (window_size self))
                  (request_history self (get_user_identifier r)))) < requests_per_minute self"
  shows "rate_limit_dispatch call_next t self r =
     (Allowed
        ((call_next r)\<lparr>headers :=
            (headers (call_next r))
              (''X-RateLimit-Limit'' \<mapsto> str_int (requests_per_minute self),
               ''X-RateLimit-Remaining'' \<mapsto>
                  str_int (requests_per_minute self
                     - int (length (filter (\<lambda>ts. ts > t - of_int (window_size self))
                                      (request_history self (get_user_identifier r)))) - 1),
               ''X-RateLimit-Reset'' \<mapsto> str_int (py_int (t + of_int (window_size self))))\<rparr>),
      self\<lparr>request_history :=
             (request_history self)
               (get_user_identifier r :=
                  filter (\<lambda>ts. ts > t - of_int (window_size self))
                    (request_history self (get_user_identifier r)) @ [t])\<rparr>)"
  using assms
  by (simp add: rate_limit_dispatch_def is_rate_limited_def clean_old_requests_def Let_def
      set_header_def max_def)

lemma too_many_requests_cong:
  "window_size a = window_size b \<Longrightarrow> requests_per_minute a = requests_per_minute b \<Longrightarrow>
   too_many_requests a t = too_many_requests b t"
  by (simp add: too_many_requests_def)

lemma kept_in_window:
  fixes s t :: real
  assumes "s \<le> t" "t < s + 60" "\<forall>ts\<in>set h. ts \<le> s - 60 \<or> s \<le> ts"
  shows "filter (\<lambda>ts. ts > t - 60) h = filter (\<lambda>ts. s \<le> ts) h"
proof (rule filter_cong [OF refl])
  fix ts assume "ts \<in> set h"
  with assms(3) have "ts \<le> s - 60 \<or> s \<le> ts" by blast
  with assms(1,2) show "(t - 60 < ts) = (s \<le> ts)" by linarith
qed

lemma rate_limit_run_length: "length (fst (rate_limit_run call_next self rs)) = length rs"
proof (induction rs arbitrary: self)
  case Nil
  show ?case by simp
next
  case (Cons tr rs)
  obtain t r where tr: "tr = (t, r)" by (cases tr)
  obtain a self1 where d: "rate_limit_dispatch call_next t self r = (a, self1)"
    by (cases "rate_limit_dispatch call_next t self r")
  obtain as self2 where rr: "rate_limit_run call_next self1 rs = (as, self2)"
    by (cases "rate_limit_run call_next self1 rs")
  from Cons.IH [of self1] rr have "length as = length rs" by simp
  with tr d rr show ?case by simp
qed

lemma rate_limit_run_window:
  assumes "in_window k s rs" "window_size self = 60"
    and "\<forall>ts\<in>set (request_history self k). ts \<le> s - 60 \<or> s \<le> ts"
    and "i < length rs"
  shows "(is_allowed (fst (rate_limit_run call_next self rs) ! i) \<longleftrightarrow>
            int (length (filter (\<lambda>ts. s \<le> ts) (request_history self k))) + int i
              < requests_per_minute self) \<and>
         (\<not> is_allowed (fst (rate_limit_run call_next self rs) ! i) \<longrightarrow>
            fst (rate_limit_run call_next self rs) ! i
              = Rejected (too_many_requests self (fst (rs ! i))))"
  using assms
proof (induction rs arbitrary: self i)
  case Nil
  then show ?case by simp
next
  case (Cons tr rs)
  obtain t r where tr: "tr = (t, r)" by (cases tr)
  from Cons.prems(1) tr have
    nb: "path (req_url r) \<notin> set bypass_paths" and k: "get_user_identifier r = k" and
    t: "s \<le> t" "t < s + 60" and rest: "in_window k s rs"
    by (simp_all add: in_window_def)
  let ?h = "request_history self k"
  let ?kept = "filter (\<lambda>ts. s \<le> ts) ?h"
  have kept: "filter (\<lambda>ts. ts > t - of_int (window_size self)) (request_history self (get_user_identifier r)) = ?kept"
    using kept_in_window [OF t Cons.prems(3)] Cons.prems(2) k by simp
  obtain a self1 where d: "rate_limit_dispatch call_next t self r = (a, self1)"
    by (cases "rate_limit_dispatch call_next t self r")
  obtain as self2 where rr: "rate_limit_run call_next self1 rs = (as, self2)"
    by (cases "rate_limit_run call_next self1 rs")
  have run: "fst (rate_limit_run call_next self (tr # rs)) = a # as"
    using tr d rr by simp
  show ?case
  proof (cases "int (length ?kept) \<ge> requests_per_minute self")
    case limited: True
    from rate_limit_dispatch_limited [OF nb, where t = t and self = self and call_next = call_next] limited kept d k
    have a: "a = Rejected (too_many_requests self t)"
      and s1: "self1 = self\<lparr>request_history := (request_history self)(k := ?kept)\<rparr>"
      by simp_all
    have f1: "requests_per_minute self1 = requests_per_minute self" "window_size self1 = 60"
      "request_history self1 k = ?kept"
      using s1 Cons.prems(2) by simp_all
    have inv1: "\<forall>ts\<in>set (request_history self1 k). ts \<le> s - 60 \<or> s \<le> ts"
      unfolding f1 by simp
    show ?thesis
    proof (cases i)
      case 0
      with run a limited tr show ?thesis by simp
    next
      case (Suc j)
      with Cons.prems(4) have j: "j < length rs" by simp
      note ih = Cons.IH [OF rest f1(2) inv1 j, unfolded rr fst_conv f1]
      have tm: "too_many_requests self1 t' = too_many_requests self t'" for t'
        by (rule too_many_requests_cong) (simp_all add: f1 Cons.prems(2))
      from ih limited Suc run tm show ?thesis by auto
    qed
  next
    case allowed: False
    then have lt: "int (length (filter (\<lambda>ts. ts > t - of_int (window_size self))
                  (request_history self (get_user_identifier r)))) < requests_per_minute self"
      unfolding kept by simp
    from rate_limit_dispatch_allowed [OF nb lt, where call_next = call_next] d kept k
    have a: "is_allowed a"
      and s1: "self1 = self\<lparr>request_history := (request_history self)(k := ?kept @ [t])\<rparr>"
      by auto
    have f1: "requests_per_minute self1 = requests_per_minute self" "window_size self1 = 60"
      "request_history self1 k = ?kept @ [t]"
      using s1 Cons.prems(2) by simp_all
    have inv1: "\<forall>ts\<in>set (request_history self1 k). ts \<le> s - 60 \<or> s \<le> ts"
      unfolding f1 using t by auto
    have len1: "int (length (filter (\<lambda>ts. s \<le> ts) (?kept @ [t]))) = int (length ?kept) + 1"
      using t by simp
    show ?thesis
    proof (cases i)
      case 0
      with run a allowed show ?thesis by simp
    next
      case (Suc j)
      with Cons.prems(4) have j: "j < length rs" by simp
      note ih = Cons.IH [OF rest f1(2) inv1 j, unfolded rr fst_conv f1 len1]
      have tm: "too_many_requests self1 t' = too_many_requests self t'" for t'
        by (rule too_many_requests_cong) (simp_all add: f1 Cons.prems(2))
      from ih Suc run tm show ?thesis by (simp add: algebra_simps)
    qed
  qed
qed

lemma str_int_60: "str_int 60 = ''60''"
  by code_simp
lemma str_int_0: "str_int 0 = ''0''"
  by code_simp
lemma str_int_1: "str_int 1 = ''1''"
  by code_simp
lemma str_int_120: "str_int 120 = ''120''"
  by code_simp

lemma test_request_identity: "get_user_identifier test_request = ''test_token_123''"
  by (simp add: get_user_identifier_def header_get_def test_request_def token_headers_def)

lemma test_request_path: "path (req_url test_request) \<notin> set bypass_paths"
  by (simp add: test_request_def bypass_paths_def)

lemma py_int_half: "py_int (121/2) = 60"
  by (simp add: py_int_def)

lemma too_many_requests_fields:
  assumes "window_size self = 60"
  shows "status_code (too_many_requests self t) = 429"
    and "headers (too_many_requests self t) ''Retry-After'' = Some ''60''"
    and "headers (too_many_requests self t) ''X-RateLimit-Limit'' = Some (str_int (requests_per_minute self))"
    and "headers (too_many_requests self t) ''X-RateLimit-Remaining'' = Some ''0''"
    and "headers (too_many_requests self t) ''X-RateLimit-Reset'' = Some (str_int (py_int (t + 60)))"
    and "content (too_many_requests self t) =
           JObj [(''detail'', JStr rate_limit_detail), (''error'', JStr ''rate_limit_exceeded''),
                 (''retry_after'', JInt 60)]"
  using assms by (simp_all add: too_many_requests_def str_int_60)

lemma rate_limit_step:
  assumes w: "window_size self = 60" and nb: "path (req_url r) \<notin> set bypass_paths"
  shows
    "let C = requests_per_minute self;
         k = get_user_identifier r;
         kept = filter (\<lambda>ts. ts > t - 60) (request_history self k);
         n = int (length kept);
         (a, self') = rate_limit_dispatch call_next t self r
     in (\<forall>ts \<in> set kept. t - 60 < ts) \<and>
        (n \<ge> C \<longrightarrow>
           a = Rejected (too_many_requests self t) \<and>
           status_code (response_of a) = 429 \<and>
           headers (response_of a) ''Retry-After'' = Some ''60'' \<and>
           headers (response_of a) ''X-RateLimit-Limit'' = Some (str_int C) \<and>
           headers (response_of a) ''X-RateLimit-Remaining'' = Some ''0'' \<and>
           headers (response_of a) ''X-RateLimit-Reset'' = Some (str_int (py_int (t + 60))) \<and>
           request_history self' = (request_history self)(k := kept)) \<and>
        (n < C \<longrightarrow>
           is_allowed a \<and>
           status_code (response_of a) = status_code (call_next r) \<and>
           content (response_of a) = content (call_next r) \<and>
           headers (response_of a) ''X-RateLimit-Limit'' = Some (str_int C) \<and>
           headers (response_of a) ''X-RateLimit-Remaining'' = Some (str_int (C - n - 1)) \<and>
           headers (response_of a) ''X-RateLimit-Reset'' = Some (str_int (py_int (t + 60))) \<and>
           request_history self' = (request_history self)(k := kept @ [t])) \<and>
        requests_per_minute self' = C \<and> window_size self' = 60"
proof (cases "int (length (filter (\<lambda>ts. ts > t - 60) (request_history self (get_user_identifier r))))
                \<ge> requests_per_minute self")
  case True
  then have "int (length (filter (\<lambda>ts. ts > t - of_int (window_size self))
                  (request_history self (get_user_identifier r)))) \<ge> requests_per_minute self"
    using w by simp
  from rate_limit_dispatch_limited [OF nb this, where call_next = call_next] True w
  show ?thesis
    by (simp add: Let_def too_many_requests_fields)
next
  case False
  then have "int (length (filter (\<lambda>ts. ts > t - of_int (window_size self))
                  (request_history self (get_user_identifier r)))) < requests_per_minute self"
    using w by simp
  from rate_limit_dispatch_allowed [OF nb this, where call_next = call_next] False w
  show ?thesis
    by (simp add: Let_def)
qed

lemma rate_limit_window:
  assumes w: "window_size self = 60" and win: "in_window k s rs"
    and stale: "\<forall>ts\<in>set (request_history self k). ts \<le> s - 60"
  shows "\<forall>i < length rs.
           (is_allowed (fst (rate_limit_run call_next self rs) ! i) \<longleftrightarrow> int i < requests_per_minute self) \<and>
           (\<not> is_allowed (fst (rate_limit_run call_next self rs) ! i) \<longrightarrow>
              fst (rate_limit_run call_next self rs) ! i = Rejected (too_many_requests self (fst (rs ! i))))"
proof (intro allI impI)
  fix i assume i: "i < length rs"
  from stale have inv: "\<forall>ts\<in>set (request_history self k). ts \<le> s - 60 \<or> s \<le> ts" by blast
  have "filter (\<lambda>ts. s \<le> ts) (request_history self k) = []"
    using stale by (auto simp: filter_empty_conv)
  with rate_limit_run_window [OF win w inv i, where call_next = call_next]
  show "(is_allowed (fst (rate_limit_run call_next self rs) ! i) \<longleftrightarrow> int i < requests_per_minute self) \<and>
           (\<not> is_allowed (fst (rate_limit_run call_next self rs) ! i) \<longrightarrow>
              fst (rate_limit_run call_next self rs) ! i = Rejected (too_many_requests self (fst (rs ! i))))"
    by simp
qed

text \<open>
  Claim C1, as the specification states it, fails in two places. First, the code keeps
  a timestamp only when it is newer than \<open>t - 60\<close>: with capacity 1 and one stored
  timestamp 0, the check at time 60 discards that timestamp, although it is not older
  than \<open>t - 60\<close>, and admits the request, where the rule as worded counts it and rejects.
  Second, the reset header is \<^verbatim>\<open>int(t + 60)\<close>, the truncation of \<open>t + 60\<close>: at
  time 1/2 it reads 60, not 60.5.
\<close>

theorem rate_limit_claim_counterexample:
  "spec_rejects 1 [0] 60 \<and>
   is_allowed (fst (rate_limit_dispatch always_ok 60 (limiter_with 1 [0]) test_request)) \<and>
   headers (response_of (fst (rate_limit_dispatch always_ok (1/2) (limiter_with 1 []) test_request)))
      ''X-RateLimit-Reset'' = Some (str_int 60) \<and>
   of_int 60 \<noteq> spec_reset (1/2)"
proof -
  have a: "spec_rejects 1 [0] 60"
    by (simp add: spec_rejects_def spec_remaining_def)
  have b: "is_allowed (fst (rate_limit_dispatch always_ok 60 (limiter_with 1 [0]) test_request))"
    by (simp add: rate_limit_dispatch_allowed test_request_path test_request_identity
        limiter_with_def new_rate_limiter_def)
  have c: "headers (response_of (fst (rate_limit_dispatch always_ok (1/2) (limiter_with 1 []) test_request)))
      ''X-RateLimit-Reset'' = Some (str_int 60)"
    by (simp add: rate_limit_dispatch_allowed test_request_path test_request_identity
        limiter_with_def new_rate_limiter_def py_int_half)
  have d: "of_int 60 \<noteq> spec_reset (1/2)"
    by (simp add: spec_reset_def)
  from a b c d show ?thesis by simp
qed

text \<open>
  Claim C1, amended. The constructor sets the window size to 60 and the capacity to 100
  when none is given. For a limiter with window size 60 and capacity \<open>C\<close>, a check at
  time \<open>t\<close> of a request on a rate-limited path keeps exactly the stored timestamps of
  its identity that are newer than \<open>t - 60\<close>. If at least \<open>C\<close> remain, the request
  is rejected with status 429 and the headers Retry-After 60, X-RateLimit-Limit \<open>C\<close>,
  X-RateLimit-Remaining 0 and X-RateLimit-Reset \<open>t + 60\<close> truncated to an integer, and the
  kept timestamps are stored. Otherwise \<open>t\<close> is appended to them, the downstream response
  is returned with its status and body, and it carries X-RateLimit-Remaining
  \<open>C - count - 1\<close>. Consequently, in a sequential run of one identity whose requests all
  fall in one window of 60 seconds (from \<open>s\<close> on, \<open>s + 60\<close> excluded) and whose stored
  timestamps are all at least 60 seconds older than \<open>s\<close>, the \<open>i\<close>-th request (from 0)
  is admitted exactly when \<open>i < C\<close>: the first \<open>C\<close> succeed and every later one is
  rejected with the 429 response.
\<close>

theorem rate_limit_sliding_window:
  assumes "window_size self = 60"
  shows
    "(path (req_url r) \<notin> set bypass_paths \<longrightarrow>
       (let C = requests_per_minute self;
            k = get_user_identifier r;
            kept = filter (\<lambda>ts. ts > t - 60) (request_history self k);
            n = int (length kept);
            (a, self') = rate_limit_dispatch call_next t self r
        in (\<forall>ts \<in> set kept. t - 60 < ts) \<and>
           (n \<ge> C \<longrightarrow>
              a = Rejected (too_many_requests self t) \<and>
              status_code (response_of a) = 429 \<and>
              headers (response_of a) ''Retry-After'' = Some ''60'' \<and>
              headers (response_of a) ''X-RateLimit-Limit'' = Some (str_int C) \<and>
              headers (response_of a) ''X-RateLimit-Remaining'' = Some ''0'' \<and>
              headers (response_of a) ''X-RateLimit-Reset'' = Some (str_int (py_int (t + 60))) \<and>
              request_history self' = (request_history self)(k := kept)) \<and>
           (n < C \<longrightarrow>
              is_allowed a \<and>
              status_code (response_of a) = status_code (call_next r) \<and>
              content (response_of a) = content (call_next r) \<and>
              headers (response_of a) ''X-RateLimit-Limit'' = Some (str_int C) \<and>
              headers (response_of a) ''X-RateLimit-Remaining'' = Some (str_int (C - n - 1)) \<and>
              headers (response_of a) ''X-RateLimit-Reset'' = Some (str_int (py_int (t + 60))) \<and>
              request_history self' = (request_history self)(k := kept @ [t])) \<and>
           requests_per_minute self' = C \<and> window_size self' = 60)) \<and>
     (in_window k' s rs \<and> (\<forall>ts\<in>set (request_history self k'). ts \<le> s - 60) \<longrightarrow>
        (\<forall>i < length rs.
           (is_allowed (fst (rate_limit_run call_next self rs) ! i) \<longleftrightarrow> int i < requests_per_minute self) \<and>
           (\<not> is_allowed (fst (rate_limit_run call_next self rs) ! i) \<longrightarrow>
              fst (rate_limit_run call_next self rs) ! i
                = Rejected (too_many_requests self (fst (rs ! i)))))) \<and>
     requests_per_minute (init_rate_limiter None) = 100 \<and>
     window_size (init_rate_limiter rpm) = 60"
proof (intro conjI impI)
  assume "path (req_url r) \<notin> set bypass_paths"
  from rate_limit_step [OF assms this]
  show "let C = requests_per_minute self;
            k = get_user_identifier r;
            kept = filter (\<lambda>ts. ts > t - 60) (request_history self k);
            n = int (length kept);
            (a, self') = rate_limit_dispatch call_next t self r
        in (\<forall>ts \<in> set kept. t - 60 < ts) \<and>
           (n \<ge> C \<longrightarrow>
              a = Rejected (too_many_requests self t) \<and>
              status_code (response_of a) = 429 \<and>
              headers (response_of a) ''Retry-After'' = Some ''60'' \<and>
              headers (response_of a) ''X-RateLimit-Limit'' = Some (str_int C) \<and>
              headers (response_of a) ''X-RateLimit-Remaining'' = Some ''0'' \<and>
              headers (response_of a) ''X-RateLimit-Reset'' = Some (str_int (py_int (t + 60))) \<and>
              request_history self' = (request_history self)(k := kept)) \<and>
           (n < C \<longrightarrow>
              is_allowed a \<and>
              status_code (response_of a) = status_code (call_next r) \<and>
              content (response_of a) = content (call_next r) \<and>
              headers (response_of a) ''X-RateLimit-Limit'' = Some (str_int C) \<and>
              headers (response_of a) ''X-RateLimit-Remaining'' = Some (str_int (C - n - 1)) \<and>
              headers (response_of a) ''X-RateLimit-Reset'' = Some (str_int (py_int (t + 60))) \<and>
              request_history self' = (request_history self)(k := kept @ [t])) \<and>
           requests_per_minute self' = C \<and> window_size self' = 60" .
next
  assume "in_window k' s rs \<and> (\<forall>ts\<in>set (request_history self k'). ts \<le> s - 60)"
  then have win: "in_window k' s rs" and stale: "\<forall>ts\<in>set (request_history self k'). ts \<le> s - 60"
    by blast+
  from rate_limit_window [OF assms win stale]
  show "\<forall>i < length rs.
           (is_allowed (fst (rate_limit_run call_next self rs) ! i) \<longleftrightarrow> int i < requests_per_minute self) \<and>
           (\<not> is_allowed (fst (rate_limit_run call_next self rs) ! i) \<longrightarrow>
              fst (rate_limit_run call_next self rs) ! i
                = Rejected (too_many_requests self (fst (rs ! i))))" .
next
  show "requests_per_minute (init_rate_limiter None) = 100"
    by (simp add: init_rate_limiter_def new_rate_limiter_def)
next
  show "window_size (init_rate_limiter rpm) = 60"
    by (simp add: init_rate_limiter_def new_rate_limiter_def)
qed

text \<open>
  The amended claim C1 at concrete inputs: capacity 2 and three requests of one token at
  times 1/2, 1 and 59; and capacity 1 with one stored timestamp, once inside the window
  (rejected, reset header 120) and once at its edge (admitted, remaining 0).
\<close>

theorem rate_limit_sliding_window_witness:
  "window_size (new_rate_limiter 2) = 60 \<and>
   in_window ''test_token_123'' 0 three_requests \<and>
   is_allowed (fst (rate_limit_run always_ok (new_rate_limiter 2) three_requests) ! 0) \<and>
   is_allowed (fst (rate_limit_run always_ok (new_rate_limiter 2) three_requests) ! 1) \<and>
   fst (rate_limit_run always_ok (new_rate_limiter 2) three_requests) ! 2
     = Rejected (too_many_requests (new_rate_limiter 2) 59) \<and>
   path (req_url test_request) \<notin> set bypass_paths \<and>
   headers (response_of (fst (rate_limit_dispatch always_ok 60 (limiter_with 1 [30]) test_request)))
     ''X-RateLimit-Reset'' = Some ''120'' \<and>
   headers (response_of (fst (rate_limit_dispatch always_ok 60 (limiter_with 1 [0]) test_request)))
     ''X-RateLimit-Remaining'' = Some ''0'' \<and>
   request_history (snd (rate_limit_dispatch always_ok 60 (limiter_with 1 [0]) test_request))
     ''test_token_123'' = [60]"
proof -
  have w2: "window_size (new_rate_limiter 2) = 60" "requests_per_minute (new_rate_limiter 2) = 2"
    "request_history (new_rate_limiter 2) ''test_token_123'' = []"
    by (simp_all add: new_rate_limiter_def)
  have win: "in_window ''test_token_123'' 0 three_requests"
    by (simp add: in_window_def three_requests_def test_request_path test_request_identity)
  have len: "length three_requests = 3" "fst (three_requests ! 2) = 59"
    by (simp_all add: three_requests_def)
  have w1: "window_size (limiter_with 1 h) = 60" "requests_per_minute (limiter_with 1 h) = 1"
    "request_history (limiter_with 1 h) ''test_token_123'' = h" for h
    by (simp_all add: limiter_with_def new_rate_limiter_def)
  have py: "py_int 120 = 120" by (simp add: py_int_def)
  note run = rate_limit_sliding_window [OF w2(1), where k' = "''test_token_123''" and s = 0
      and rs = three_requests and call_next = always_ok, THEN conjunct2, THEN conjunct1, rule_format, OF conjI [OF win]]
  have run0: "is_allowed (fst (rate_limit_run always_ok (new_rate_limiter 2) three_requests) ! 0)"
    using run [of 0] by (simp add: w2 len)
  have run1: "is_allowed (fst (rate_limit_run always_ok (new_rate_limiter 2) three_requests) ! 1)"
    using run [of 1] by (simp add: w2 len)
  have run2: "fst (rate_limit_run always_ok (new_rate_limiter 2) three_requests) ! 2
     = Rejected (too_many_requests (new_rate_limiter 2) 59)"
    using run [of 2] by (simp add: w2 len)
  have rej: "headers (response_of (fst (rate_limit_dispatch always_ok 60 (limiter_with 1 [30]) test_request)))
     ''X-RateLimit-Reset'' = Some ''120''"
    using rate_limit_sliding_window [OF w1(1), where h1 = "[30]" and r = test_request and t = 60
        and call_next = always_ok, THEN conjunct1, rule_format, OF test_request_path]
    by (simp add: Let_def w1 test_request_identity py str_int_120 split: prod.splits)
  have ok: "headers (response_of (fst (rate_limit_dispatch always_ok 60 (limiter_with 1 [0]) test_request)))
     ''X-RateLimit-Remaining'' = Some ''0'' \<and>
     request_history (snd (rate_limit_dispatch always_ok 60 (limiter_with 1 [0]) test_request))
       ''test_token_123'' = [60]"
    using rate_limit_sliding_window [OF w1(1), where h1 = "[0]" and r = test_request and t = 60
        and call_next = always_ok, THEN conjunct1, rule_format, OF test_request_path]
    by (simp add: Let_def w1 test_request_identity str_int_0 split: prod.splits)
  from w2(1) win run0 run1 run2 test_request_path rej ok show ?thesis by simp
qed

section \<open>Properties of the HTTPS policy\<close>



section \<open>Properties of the generation call\<close>

text \<open>
  Whatever the provider does, the decorated \<^verbatim>\<open>call_gpt4\<close> makes one attempt: the
  body turns every provider exception into an \<^verbatim>\<open>ExternalAPIError\<close>, for which the
  retry predicate of the decorator does not hold.
\<close>

lemma call_gpt4_single_attempt:
  "call_gpt4 provider = (raise_app (call_gpt4_body (provider 1)), 1)"
  by (cases "provider 1" rule: call_gpt4_body.cases)
     (simp_all add: call_gpt4_def retrying.simps raise_app_def)

text \<open>
  When the first provider call fails, with whatever exception, the call raises an
  \<^verbatim>\<open>ExternalAPIError\<close> that carries the service name, after that one attempt.
\<close>

lemma call_gpt4_failure:
  assumes "provider 1 = Inl err"
  shows "\<exists>e. call_gpt4 provider = (Inl (App e), 1) \<and> exc_class e = ExternalAPIError \<and>
             details e = [(''service'', JStr ''OpenAI'')]"
  using assms
  by (cases err)
     (simp_all add: call_gpt4_single_attempt raise_app_def external_api_error_def
        toefl_app_exception_def)

text \<open>
  The retry loop itself does what the decorator's arguments say: applied to the provider
  call directly, it returns the result of the third attempt after two throttling errors,
  and gives up after three.
\<close>

lemma retrying_raw_provider:
  "retrying 3 retry_if_exception_type (\<lambda>n. raise_provider (throttled_twice n)) 1
     = (Inr ''generated text'', 3)"
  by (simp add: retrying.simps raise_provider_def eval_nat_numeral)

lemma retrying_raw_provider_exhausted:
  "retrying 3 retry_if_exception_type (\<lambda>n. raise_provider (always_throttled n)) 1
     = (Inl (Provider (RateLimitError ''Error code: 429'')), 3)"
  by (simp add: retrying.simps raise_provider_def eval_nat_numeral)

text \<open>
  Claim C2 says that a generation call whose provider fails with a retryable error on
  attempts 1 and 2 and succeeds on attempt 3 returns the successful result. The code
  does not: with a provider that is throttled twice and then answers, \<^verbatim>\<open>call_gpt4\<close>
  raises the \<^verbatim>\<open>ExternalAPIError\<close> for the service \<^verbatim>\<open>OpenAI\<close> after the first
  attempt and never makes a second one.
\<close>

theorem call_gpt4_no_retry:
  "call_gpt4 throttled_twice =
     (Inl (App (external_api_error ''OpenAI'' ''Rate limit exceeded. Please try again later.'' None)), 1)"
  by (simp add: call_gpt4_def retrying.simps raise_app_def)

section \<open>Properties of the error handlers\<close>

lemma boundary_handler_shape:
  "\<exists>code m um ds st.
     fst (boundary_handler f) =
       json_response st
         (to_dict \<lparr>er_error_code = code, er_message = m, er_user_message = um,
                   er_details = ds, er_status_code = st\<rparr>)"
proof (cases f)
  case (AppFailure exc)
  show ?thesis
    unfolding AppFailure boundary_handler.simps toefl_exception_handler_def Let_def fst_conv
    by (intro exI) (rule refl)
next
  case (HTTPFailure code detail)
  show ?thesis
    unfolding HTTPFailure boundary_handler.simps http_exception_handler_def Let_def fst_conv
    by (intro exI) (rule refl)
next
  case (RequestValidationFailure errors)
  show ?thesis
    unfolding RequestValidationFailure boundary_handler.simps validation_exception_handler_def
      Let_def fst_conv
    by (intro exI) (rule refl)
next
  case (Unexpected type_name exc_text)
  show ?thesis
    unfolding Unexpected boundary_handler.simps generic_exception_handler_def Let_def fst_conv
    by (intro exI) (rule refl)
qed

lemma toefl_exception_handler_content:
  "content (fst (toefl_exception_handler exc)) =
     JObj [(''error'',
            JObj [(''code'', JStr (str_or (error_code exc) ''INTERNAL_ERROR'')),
                  (''message'', JStr (message exc)),
                  (''user_message'', JStr (user_message exc)),
                  (''details'', JObj (details exc))]),
           (''detail'', JStr (message exc))]"
  by (simp add: toefl_exception_handler_def Let_def json_response_def to_dict_def)

text \<open>
  Claim C3, as the specification states it, fails: the internal message of an
  application exception is transmitted. For a scoring error raised with an internal
  message only, that message is among the strings of the response body, although it is
  neither the user message, nor the code, nor part of the details.
\<close>

theorem error_body_counterexample:
  "message refused \<in> set (json_strings (content (fst (boundary_handler (AppFailure refused))))) \<and>
   message refused \<noteq> user_message refused \<and>
   error_code refused \<noteq> Some (message refused) \<and>
   message refused \<notin> set (json_strings (JObj (details refused)))"
  by (simp add: toefl_exception_handler_content refused_def scoring_error_def
      toefl_app_exception_def str_or_def)

text \<open>
  Claim C3, amended. Every failure that reaches the boundary is answered by exactly one
  response, whose body is one envelope of the unified shape. For an application exception
  the body carries the machine code (\<^verbatim>\<open>INTERNAL_ERROR\<close> when the exception has none),
  the internal message, the user message and the details, and the internal message a
  second time in the field \<^verbatim>\<open>detail\<close>; nothing else is transmitted. The same
  internal message is written to the server log.
\<close>

theorem error_envelope_body:
  "(\<exists>code m um ds st.
      fst (boundary_handler f) =
        json_response st
          (to_dict \<lparr>er_error_code = code, er_message = m, er_user_message = um,
                    er_details = ds, er_status_code = st\<rparr>)) \<and>
   content (fst (boundary_handler (AppFailure exc))) =
     JObj [(''error'',
            JObj [(''code'', JStr (str_or (error_code exc) ''INTERNAL_ERROR'')),
                  (''message'', JStr (message exc)),
                  (''user_message'', JStr (user_message exc)),
                  (''details'', JObj (details exc))]),
           (''detail'', JStr (message exc))] \<and>
   json_strings (content (fst (boundary_handler (AppFailure exc)))) =
     [str_or (error_code exc) ''INTERNAL_ERROR'', message exc, user_message exc]
       @ json_strings (JObj (details exc)) @ [message exc] \<and>
   snd (boundary_handler (AppFailure exc)) =
     [(ERROR, ''Application error: '' @ str_opt (error_code exc) @ '' - '' @ message exc)]"
proof -
  have "snd (boundary_handler (AppFailure exc)) =
     [(ERROR, ''Application error: '' @ str_opt (error_code exc) @ '' - '' @ message exc)]"
    by (simp add: toefl_exception_handler_def Let_def)
  then show ?thesis
    using boundary_handler_shape [of f]
    by (simp add: toefl_exception_handler_content)
qed


section \<open>Properties of the score validation\<close>







section \<open>Properties of the extraction\<close>


























section \<open>Properties of the cleanup\<close>

subsection \<open>The file system and the single deletion\<close>

lemma lookup_remove_entry_same: "lookup_node (remove_entry fs p) p = None"
  by (induction "nodes fs") (auto simp: lookup_node_def remove_entry_def map_of_eq_None_iff)

lemma lookup_remove_entry_other: "q \<noteq> p \<Longrightarrow> lookup_node (remove_entry fs p) q = lookup_node fs q"
proof -
  have "q \<noteq> p \<Longrightarrow> map_of (filter (\<lambda>e. fst e \<noteq> p) xs) q = map_of xs q" for xs :: "(string \<times> node) list"
    by (induction xs) auto
  then show "q \<noteq> p \<Longrightarrow> ?thesis" by (simp add: lookup_node_def remove_entry_def)
qed

lemma unlink_fault_remove_entry: "unlink_fault (remove_entry fs p) = unlink_fault fs"
  by (simp add: remove_entry_def)


lemma cleanup_not_file:
  "file_path \<noteq> [] \<Longrightarrow> path_exists fs file_path \<Longrightarrow> \<not> path_is_file fs file_path \<Longrightarrow>
   cleanup_audio_file fs file_path = (Inr False, fs, [(WARNING, ''Path is not a file: '' @ file_path)])"
  by (simp add: cleanup_audio_file_def cleanup_audio_file_try_def)


lemma cleanup_fault:
  "file_path \<noteq> [] \<Longrightarrow> path_is_file fs file_path \<Longrightarrow> unlink_fault fs file_path = Some e \<Longrightarrow>
   \<exists>m. cleanup_audio_file fs file_path = (Inr False, fs, [(ERROR, m)])"
  by (cases e) (auto simp: cleanup_audio_file_def cleanup_audio_file_try_def path_unlink_def
      path_is_file_def path_exists_def split: option.splits)

lemma cleanup_deletes:
  "file_path \<noteq> [] \<Longrightarrow> path_is_file fs file_path \<Longrightarrow> unlink_fault fs file_path = None \<Longrightarrow>
   cleanup_audio_file fs file_path =
     (Inr True, remove_entry fs file_path, [(INFO, ''Successfully deleted audio file: '' @ file_path)])"
  by (auto simp: cleanup_audio_file_def cleanup_audio_file_try_def path_unlink_def
      path_is_file_def path_exists_def split: option.splits)

lemma cleanup_empty:
  "cleanup_audio_file fs [] =
     (Inr False, fs, [(WARNING, ''cleanup_audio_file called with empty file_path'')])"
  by (simp add: cleanup_audio_file_def cleanup_audio_file_try_def)


text \<open>
  Claim C9. With the empty path string, \<^verbatim>\<open>cleanup_audio_file\<close> returns
  \<^verbatim>\<open>False\<close>, whatever the file system holds and in particular when nothing exists
  at that path; the file system is left as it was. The rule that an absent file counts
  as success is reached only for a non-empty path.
\<close>

theorem cleanup_audio_file_empty_path:
  "cleanup_audio_file fs [] =
     (Inr False, fs, [(WARNING, ''cleanup_audio_file called with empty file_path'')])"
  by (simp add: cleanup_audio_file_def cleanup_audio_file_try_def)





subsection \<open>The age-based sweep\<close>

lemma sweep_step_effect:
  assumes "sweep_step cutoff (fs, c) q = (fs1, c1)"
  shows "(\<forall>p. p \<noteq> q \<longrightarrow> lookup_node fs1 p = lookup_node fs p) \<and>
         unlink_fault fs1 = unlink_fault fs \<and>
         (fs1 = fs \<and> c1 = c \<or>
          lookup_node fs q \<noteq> None \<and> lookup_node fs1 q = None \<and> c1 = Suc c)"
proof (cases "lookup_node fs q")
  case None
  with assms show ?thesis by (simp add: sweep_step_def path_stat_def)
next
  case (Some n)
  show ?thesis
  proof (cases "st_mtime n < cutoff")
    case False
    with Some assms show ?thesis by (simp add: sweep_step_def path_stat_def)
  next
    case old: True
    have ex: "path_exists fs q" using Some by (simp add: path_exists_def)
    show ?thesis
    proof (cases "q \<noteq> [] \<and> path_is_file fs q \<and> unlink_fault fs q = None")
      case True
      then have "cleanup_audio_file fs q =
          (Inr True, remove_entry fs q, [(INFO, ''Successfully deleted audio file: '' @ q)])"
        by (simp add: cleanup_deletes)
      with Some old assms have "fs1 = remove_entry fs q" "c1 = Suc c"
        by (simp_all add: sweep_step_def path_stat_def)
      with Some show ?thesis
        by (simp add: lookup_remove_entry_same lookup_remove_entry_other unlink_fault_remove_entry)
    next
      case False
      then consider "q = []" | "q \<noteq> []" "\<not> path_is_file fs q"
        | e where "q \<noteq> []" "path_is_file fs q" "unlink_fault fs q = Some e"
        by (cases "unlink_fault fs q") auto
      then have "\<exists>lg. cleanup_audio_file fs q = (Inr False, fs, lg)"
      proof cases
        case 1 then show ?thesis by (simp add: cleanup_empty)
      next
        case 2 with ex show ?thesis by (simp add: cleanup_not_file)
      next
        case 3 then show ?thesis using cleanup_fault by blast
      qed
      with Some old assms show ?thesis
        by (auto simp: sweep_step_def path_stat_def)
    qed
  qed
qed

lemma sweep_loop_effect:
  assumes "distinct qs" "foldl (sweep_step cutoff) (fs, c) qs = (fs', c')"
  shows "(\<forall>p. p \<notin> set qs \<longrightarrow> lookup_node fs' p = lookup_node fs p) \<and>
         unlink_fault fs' = unlink_fault fs \<and>
         (\<forall>p. lookup_node fs' p = lookup_node fs p \<or> lookup_node fs' p = None) \<and>
         c' = c + length (filter (\<lambda>p. lookup_node fs p \<noteq> None \<and> lookup_node fs' p = None) qs)"
  using assms
proof (induction qs arbitrary: fs c)
  case Nil
  then show ?case by simp
next
  case (Cons q qs)
  obtain fs1 c1 where step: "sweep_step cutoff (fs, c) q = (fs1, c1)"
    by (cases "sweep_step cutoff (fs, c) q")
  from Cons.prems step have rest: "foldl (sweep_step cutoff) (fs1, c1) qs = (fs', c')"
    by simp
  from Cons.prems have dq: "distinct qs" "q \<notin> set qs" by simp_all
  note se = sweep_step_effect [OF step]
  note s1 = se [THEN conjunct1, rule_format]
  note s2 = se [THEN conjunct2, THEN conjunct1]
  note s3 = se [THEN conjunct2, THEN conjunct2]
  note ih = Cons.IH [OF dq(1) rest]
  note r1 = ih [THEN conjunct1, rule_format]
  note r2 = ih [THEN conjunct2, THEN conjunct1]
  note r3 = ih [THEN conjunct2, THEN conjunct2, THEN conjunct1, rule_format]
  note r4 = ih [THEN conjunct2, THEN conjunct2, THEN conjunct2]
  have same_on_rest: "lookup_node fs1 p = lookup_node fs p" if "p \<in> set qs" for p
    using s1 [of p] that dq(2) by auto
  have q_final: "lookup_node fs' q = lookup_node fs1 q"
    using r1 [of q] dq(2) by simp
  have filt: "filter (\<lambda>p. lookup_node fs1 p \<noteq> None \<and> lookup_node fs' p = None) qs
            = filter (\<lambda>p. lookup_node fs p \<noteq> None \<and> lookup_node fs' p = None) qs"
    by (rule filter_cong) (simp_all add: same_on_rest)
  have frame: "\<forall>p. p \<notin> set (q # qs) \<longrightarrow> lookup_node fs' p = lookup_node fs p"
    using s1 r1 by simp
  have faults: "unlink_fault fs' = unlink_fault fs"
    using s2 r2 by simp
  have only_del: "\<forall>p. lookup_node fs' p = lookup_node fs p \<or> lookup_node fs' p = None"
  proof
    fix p
    show "lookup_node fs' p = lookup_node fs p \<or> lookup_node fs' p = None"
    proof (cases "p = q")
      case True
      with s3 q_final show ?thesis by auto
    next
      case False
      then have eq1: "lookup_node fs1 p = lookup_node fs p" by (rule s1)
      with r3 [of p] show ?thesis by simp
    qed
  qed
  have count: "c' = c + length (filter (\<lambda>p. lookup_node fs p \<noteq> None \<and> lookup_node fs' p = None) (q # qs))"
    using s3
  proof
    assume 1: "fs1 = fs \<and> c1 = c"
    then have "lookup_node fs' q = lookup_node fs q" using q_final by simp
    then have "\<not> (lookup_node fs q \<noteq> None \<and> lookup_node fs' q = None)" by auto
    then show ?thesis using r4 1 filt by simp
  next
    assume 2: "lookup_node fs q \<noteq> None \<and> lookup_node fs1 q = None \<and> c1 = Suc c"
    then have "lookup_node fs q \<noteq> None \<and> lookup_node fs' q = None" using q_final by simp
    then show ?thesis using r4 2 filt by simp
  qed
  show ?case
    using frame faults only_del count by (intro conjI) assumption+
qed

lemma glob_lecture_mp3_distinct: "distinct (glob_lecture_mp3 fs d)"
  by (simp add: glob_lecture_mp3_def)

lemma glob_lecture_mp3_matches: "p \<in> set (glob_lecture_mp3 fs d) \<Longrightarrow> lecture_mp3_in d p"
  by (auto simp: glob_lecture_mp3_def split: if_splits)

lemma sweep_loop_count:
  assumes "foldl (sweep_step cutoff) (fs, 0) (glob_lecture_mp3 fs d) = (fs', n)"
  shows "n = card {p. lecture_mp3_in d p \<and> path_exists fs p \<and> \<not> path_exists fs' p}"
proof -
  let ?P = "\<lambda>p. lookup_node fs p \<noteq> None \<and> lookup_node fs' p = None"
  let ?qs = "glob_lecture_mp3 fs d"
  note eff = sweep_loop_effect [OF glob_lecture_mp3_distinct assms]
  have unchanged: "lookup_node fs' p = lookup_node fs p" if "p \<notin> set ?qs" for p
    using eff that by blast
  have "{p. lecture_mp3_in d p \<and> path_exists fs p \<and> \<not> path_exists fs' p} = set (filter ?P ?qs)"
  proof (intro set_eqI iffI)
    fix p assume "p \<in> {p. lecture_mp3_in d p \<and> path_exists fs p \<and> \<not> path_exists fs' p}"
    then have P: "?P p" by (simp add: path_exists_def del: not_None_eq)
    have "p \<in> set ?qs"
    proof (rule ccontr)
      assume "p \<notin> set ?qs"
      then have "lookup_node fs' p = lookup_node fs p" by (rule unchanged)
      with P show False by auto
    qed
    with P show "p \<in> set (filter ?P ?qs)" by (simp del: not_None_eq)
  next
    fix p assume "p \<in> set (filter ?P ?qs)"
    then show "p \<in> {p. lecture_mp3_in d p \<and> path_exists fs p \<and> \<not> path_exists fs' p}"
      by (auto simp: path_exists_def dest: glob_lecture_mp3_matches)
  qed
  moreover have "card (set (filter ?P ?qs)) = length (filter ?P ?qs)"
    by (rule distinct_card) (simp add: glob_lecture_mp3_distinct)
  moreover have "n = length (filter ?P ?qs)"
    using eff by simp
  ultimately show ?thesis by simp
qed

text \<open>
  Claim C10. The sweep touches only paths \<^verbatim>\<open>storage/name\<close> whose name matches
  \<^verbatim>\<open>lecture_*.mp3\<close>: every other path keeps its node, whatever its age and kind;
  a node is never altered, only removed; the faults are unchanged; and the returned count
  is the number of matching paths that existed before the sweep and are gone after it.
\<close>

theorem cleanup_old_audio_files_frame:
  "case cleanup_old_audio_files env now fs audio_storage_path max_age_hours of
     (deleted_count, fs') \<Rightarrow>
       (\<forall>p. \<not> lecture_mp3_in (storage_path_of env audio_storage_path) p \<longrightarrow>
              lookup_node fs' p = lookup_node fs p) \<and>
       (\<forall>p. lookup_node fs' p = lookup_node fs p \<or> lookup_node fs' p = None) \<and>
       unlink_fault fs' = unlink_fault fs \<and>
       deleted_count =
         card {p. lecture_mp3_in (storage_path_of env audio_storage_path) p \<and>
                  path_exists fs p \<and> \<not> path_exists fs' p}"
proof (cases "path_exists fs (storage_path_of env audio_storage_path)")
  case False
  then have res: "cleanup_old_audio_files env now fs audio_storage_path max_age_hours = (0, fs)"
    by (simp add: cleanup_old_audio_files_def)
  show ?thesis unfolding res prod.case by simp
next
  case True
  let ?d = "storage_path_of env audio_storage_path"
  let ?cutoff = "now - of_int (max_age_hours * 3600)"
  obtain fs' n where loop: "foldl (sweep_step ?cutoff) (fs, 0) (glob_lecture_mp3 fs ?d) = (fs', n)"
    by (cases "foldl (sweep_step ?cutoff) (fs, 0) (glob_lecture_mp3 fs ?d)")
  with True have res: "cleanup_old_audio_files env now fs audio_storage_path max_age_hours = (n, fs')"
    by (simp add: cleanup_old_audio_files_def Let_def)
  note eff = sweep_loop_effect [OF glob_lecture_mp3_distinct loop]
  have frame: "\<forall>p. \<not> lecture_mp3_in ?d p \<longrightarrow> lookup_node fs' p = lookup_node fs p"
    using eff [THEN conjunct1] glob_lecture_mp3_matches by blast
  have only_del: "\<forall>p. lookup_node fs' p = lookup_node fs p \<or> lookup_node fs' p = None"
    by (rule eff [THEN conjunct2, THEN conjunct2, THEN conjunct1])
  have faults: "unlink_fault fs' = unlink_fault fs"
    by (rule eff [THEN conjunct2, THEN conjunct1])
  have count: "n = card {p. lecture_mp3_in ?d p \<and> path_exists fs p \<and> \<not> path_exists fs' p}"
    by (rule sweep_loop_count [OF loop])
  show ?thesis
    unfolding res prod.case
    using frame only_del faults count by (intro conjI) assumption+
qed


theorem cleanup_old_audio_files_frame_witness:
  "\<not> lecture_mp3_in ''audio'' ''audio/notes.txt'' \<and>
   lookup_node (snd (cleanup_old_audio_files empty_env 86500 sample_filesystem (Some ''audio'') 24))
      ''audio/notes.txt'' = Some \<lparr>kind = RegularFile, st_mtime = 10\<rparr> \<and>
   fst (cleanup_old_audio_files empty_env 86500 sample_filesystem (Some ''audio'') 24) =
     card {p. lecture_mp3_in ''audio'' p \<and> path_exists sample_filesystem p \<and>
              \<not> path_exists (snd (cleanup_old_audio_files empty_env 86500 sample_filesystem (Some ''audio'') 24)) p} \<and>
   fst (cleanup_old_audio_files empty_env 86500 sample_filesystem (Some ''audio'') 24) = 1"
proof -
  have d: "storage_path_of empty_env (Some ''audio'') = ''audio''"
    by (simp add: storage_path_of_def)
  have nm: "\<not> lecture_mp3_in ''audio'' ''audio/notes.txt''"
    by (simp add: lecture_mp3_in_def child_name_def matches_lecture_mp3_def)
  have old: "lookup_node sample_filesystem ''audio/notes.txt'' = Some \<lparr>kind = RegularFile, st_mtime = 10\<rparr>"
    by (simp add: lookup_node_def sample_filesystem_def sample_nodes_def)
  have one: "fst (cleanup_old_audio_files empty_env 86500 sample_filesystem (Some ''audio'') 24) = 1"
    by (simp add: cleanup_old_audio_files_def storage_path_of_def path_exists_def lookup_node_def
        sample_filesystem_def sample_nodes_def glob_lecture_mp3_def path_is_dir_def lecture_mp3_in_def
        child_name_def matches_lecture_mp3_def suffix_to_prefix sweep_step_def path_stat_def
        cleanup_audio_file_def cleanup_audio_file_try_def path_is_file_def path_unlink_def no_faults_def
        remove_entry_def Let_def)
  from cleanup_old_audio_files_frame
         [where env = empty_env and now = 86500 and fs = sample_filesystem
            and audio_storage_path = "Some ''audio''" and max_age_hours = 24]
  have "(\<forall>p. \<not> lecture_mp3_in ''audio'' p \<longrightarrow>
            lookup_node (snd (cleanup_old_audio_files empty_env 86500 sample_filesystem (Some ''audio'') 24)) p
              = lookup_node sample_filesystem p) \<and>
        fst (cleanup_old_audio_files empty_env 86500 sample_filesystem (Some ''audio'') 24) =
          card {p. lecture_mp3_in ''audio'' p \<and> path_exists sample_filesystem p \<and>
                   \<not> path_exists (snd (cleanup_old_audio_files empty_env 86500 sample_filesystem (Some ''audio'') 24)) p}"
    unfolding d by (simp split: prod.splits)
  with nm old one show ?thesis by simp
qed

end
